theory Spec2Isabelle
  imports Complex_Main
begin

section \<open>The log filter of chromatica (rplugin/python3/chromatica/logger.py)\<close>

text \<open>
  The module installs a \<^verbatim>\<open>ChromaticaLogFilter\<close> on the file handler of the
  \<^verbatim>\<open>chromatica\<close> logger. Its method \<^verbatim>\<open>filter(record)\<close> drops a record that
  repeats the previous one within \<^verbatim>\<open>log_message_cooldown\<close> seconds, counts the
  errors of every logging source, and shows the first errors of a source inside Neovim
  through \<^verbatim>\<open>vim.call('chromatica#util#print_error', ...)\<close>.

  The embedding is by explicit state passing: the filter object is a record, the method
  takes the object and returns the updated one. The clock value \<^verbatim>\<open>time.time()\<close> is an
  argument of the call, a real number (the rounding of floating point is not modelled).
\<close>

subsection \<open>Log records\<close>

text \<open>
  The attributes of \<^verbatim>\<open>logging.LogRecord\<close> that the method reads. \<^verbatim>\<open>args\<close> is a
  tuple of arbitrary values or \<^verbatim>\<open>None\<close>; \<^verbatim>\<open>exc_info\<close> is \<^verbatim>\<open>None\<close> or the
  exception triple; \<^verbatim>\<open>stack_info\<close> is \<^verbatim>\<open>None\<close> or the text of the stack.
\<close>

datatype pyarg = ArgInt int | ArgStr string

record log_record =
  levelno :: int
  name :: string
  msg :: string
  args :: "pyarg list option"
  exc_info :: "string option"
  stack_info :: "string option"

text \<open>The level constants of the \<^verbatim>\<open>logging\<close> module.\<close>

definition DEBUG :: int where "DEBUG = 10"
definition INFO :: int where "INFO = 20"
definition WARNING :: int where "WARNING = 30"
definition ERROR :: int where "ERROR = 40"
definition CRITICAL :: int where "CRITICAL = 50"

text \<open>
  Python's truth value of the two optional attributes: \<^verbatim>\<open>None\<close> is false, the
  exception triple is a non-empty tuple and so true, a string is true unless it is empty.
\<close>

definition exc_info_truthy :: "string option \<Rightarrow> bool" where
  "exc_info_truthy e = (e \<noteq> None)"

definition stack_info_truthy :: "string option \<Rightarrow> bool" where
  "stack_info_truthy s = (case s of None \<Rightarrow> False | Some txt \<Rightarrow> txt \<noteq> [])"

subsection \<open>The host\<close>

text \<open>
  Two things the method calls are not code of the module, and both are parameters here.
  \<^verbatim>\<open>record.getMessage()\<close> is the standard library's \<^verbatim>\<open>msg % args\<close>: it returns the
  formatted text or raises (\<^verbatim>\<open>TypeError\<close> when template and arguments do not match).
  \<^verbatim>\<open>vim.call('chromatica#util#print_error', text)\<close> is a remote call into Neovim: it
  either returns (\<open>None\<close> below) or raises an exception.
\<close>

datatype py_exn = Exn string

record host =
  getMessage :: "log_record \<Rightarrow> py_exn + string"
  print_error :: "string \<Rightarrow> py_exn option"

subsection \<open>The filter object\<close>

type_synonym message = "int \<times> string \<times> string \<times> pyarg list option"

text \<open>The tuple that identifies a record: \<^verbatim>\<open>(levelno, name, msg, args)\<close>.\<close>

abbreviation message_of :: "log_record \<Rightarrow> message" where
  "message_of record \<equiv> (levelno record, name record, msg record, args record)"

record log_filter =
  counter :: "string \<rightharpoonup> int"
  last_message_time :: real
  last_message :: "message option"

text \<open>\<^verbatim>\<open>__init__\<close>: an empty \<^verbatim>\<open>defaultdict(int)\<close>, time \<open>0\<close>, no last message.\<close>

definition init_filter :: log_filter where
  "init_filter = \<lparr>counter = Map.empty, last_message_time = 0, last_message = None\<rparr>"

definition log_message_cooldown :: real where
  "log_message_cooldown = 1 / 2"

text \<open>
  Reading \<^verbatim>\<open>self.counter[k]\<close> of a \<^verbatim>\<open>defaultdict(int)\<close> never raises: a missing key
  reads as \<open>0\<close> (and is stored with that value).
\<close>

definition dd_get :: "(string \<rightharpoonup> int) \<Rightarrow> string \<Rightarrow> int" where
  "dd_get m k = (case m k of None \<Rightarrow> 0 | Some v \<Rightarrow> v)"

definition dd_touch :: "(string \<rightharpoonup> int) \<Rightarrow> string \<Rightarrow> (string \<rightharpoonup> int)" where
  "dd_touch m k = m(k \<mapsto> dd_get m k)"

subsection \<open>The method \<^verbatim>\<open>filter\<close>\<close>

text \<open>
  A call ends by returning its verdict or by an exception that leaves the method. In both
  cases the assignments made so far stay in the object, so the result is the outcome, the
  object after the call, and the calls made to \<^verbatim>\<open>print_error\<close>, each tagged with the
  source name of the record that caused it.
\<close>

datatype outcome = Returned bool | Raised py_exn

type_synonym notification = "string \<times> string"

text \<open>
  The statement \<^verbatim>\<open>self.vim.call('chromatica#util#print_error', record.getMessage())\<close>:
  the argument is evaluated first, and when it raises no call is made. The result is the
  exception that leaves the statement, if any, and the call made.
\<close>

definition call_print_error :: "host \<Rightarrow> log_record \<Rightarrow> py_exn option \<times> notification list" where
  "call_print_error h record =
     (case getMessage h record of
        Inl e \<Rightarrow> (Some e, [])
      | Inr text \<Rightarrow> (print_error h text, [(name record, text)]))"

definition filter_record ::
  "host \<Rightarrow> log_filter \<Rightarrow> real \<Rightarrow> log_record \<Rightarrow> outcome \<times> log_filter \<times> notification list" where
  "filter_record h self t record =
     (let elapsed = t - last_message_time self;
          self = self\<lparr>last_message_time := t\<rparr>;
          message = (levelno record, name record, msg record, args record)
      in if Some message = last_message self \<and> elapsed < log_message_cooldown
         then (Returned False, self, [])
         else
           let self = self\<lparr>last_message := Some message\<rparr>
           in if levelno record \<ge> ERROR
              then
                let self = self\<lparr>counter :=
                             (counter self)(name record \<mapsto> dd_get (counter self) (name record) + 1)\<rparr>;
                    called = (if dd_get (counter self) (name record) \<le> 2
                              then call_print_error h record else (None, []))
                in (case fst called of
                      Some e \<Rightarrow> (Raised e, self, snd called)
                    | None \<Rightarrow>
                        if exc_info_truthy (exc_info record) \<and> stack_info_truthy (stack_info record)
                        then (Returned True,
                              self\<lparr>counter :=
                                (counter self)(name record \<mapsto> dd_get (counter self) (name record) + 1)\<rparr>,
                              snd called)
                        else (Returned True, self, snd called))
              else
                let self = self\<lparr>counter := dd_touch (counter self) (name record)\<rparr>
                in if dd_get (counter self) (name record) < 2
                   then (Returned True, self\<lparr>counter := (counter self)(name record \<mapsto> 0)\<rparr>, [])
                   else (Returned True, self, []))"

text \<open>The three components of the result of a call.\<close>

definition outcome_of :: "outcome \<times> log_filter \<times> notification list \<Rightarrow> outcome" where
  "outcome_of x = fst x"

definition state_of :: "outcome \<times> log_filter \<times> notification list \<Rightarrow> log_filter" where
  "state_of x = fst (snd x)"

definition sent_of :: "outcome \<times> log_filter \<times> notification list \<Rightarrow> notification list" where
  "sent_of x = snd (snd x)"

subsection \<open>Sequences of calls\<close>

text \<open>
  The logging facility calls the method once for every record, in order, on the same
  object. A call that ends with an exception leaves the object as it is at that point, and
  later calls go on from there. Every call has its own clock value and its own host
  behaviour.
\<close>

type_synonym call = "host \<times> real \<times> log_record"

fun run_state :: "log_filter \<Rightarrow> call list \<Rightarrow> log_filter" where
  "run_state self [] = self"
| "run_state self ((h, t, record) # cs) =
     run_state (state_of (filter_record h self t record)) cs"

fun run_sent :: "log_filter \<Rightarrow> call list \<Rightarrow> notification list" where
  "run_sent self [] = []"
| "run_sent self ((h, t, record) # cs) =
     sent_of (filter_record h self t record)
       @ run_sent (state_of (filter_record h self t record)) cs"

subsection \<open>Vocabulary of the properties\<close>

text \<open>The test of the first \<^verbatim>\<open>if\<close>: the record repeats the last message within the cooldown.\<close>

definition duplicate :: "log_filter \<Rightarrow> real \<Rightarrow> log_record \<Rightarrow> bool" where
  "duplicate self t record =
     (last_message self = Some (message_of record)
      \<and> t - last_message_time self < log_message_cooldown)"

text \<open>The error count of a source, as \<^verbatim>\<open>self.counter[s]\<close> reads it.\<close>

definition error_count :: "log_filter \<Rightarrow> string \<Rightarrow> int" where
  "error_count self s = dd_get (counter self) s"

text \<open>The record carries both exception information and stack information.\<close>

definition penalised :: "log_record \<Rightarrow> bool" where
  "penalised record =
     (exc_info_truthy (exc_info record) \<and> stack_info_truthy (stack_info record))"

text \<open>How many of the calls to \<^verbatim>\<open>print_error\<close> came from records of source \<open>s\<close>.\<close>

definition notified :: "string \<Rightarrow> notification list \<Rightarrow> nat" where
  "notified s ns = length (filter (\<lambda>n. fst n = s) ns)"

definition counter_nonneg :: "log_filter \<Rightarrow> bool" where
  "counter_nonneg self = (\<forall>s. 0 \<le> error_count self s)"

subsection \<open>The notifications a source has left\<close>

text \<open>
  A source is notified while its count, after the increment, is at most \<open>2\<close>: with count
  \<open>c\<close> it has \<open>2 - c\<close> notifications left, none when \<open>c\<close> is \<open>2\<close> or more.
\<close>

definition budget :: "log_filter \<Rightarrow> string \<Rightarrow> nat" where
  "budget self s = nat (2 - error_count self s)"

text \<open>
  Along the run from \<open>self\<close>, no record of source \<open>s\<close> below \<^verbatim>\<open>ERROR\<close> that passes
  the duplicate test is met while the count of \<open>s\<close> is exactly \<open>1\<close>: the one case in
  which the \<^verbatim>\<open>elif\<close> branch gives a notification back to the source.
\<close>

fun no_reset_at_one :: "string \<Rightarrow> log_filter \<Rightarrow> call list \<Rightarrow> bool" where
  "no_reset_at_one s self [] = True"
| "no_reset_at_one s self ((h, t, record) # cs) =
     (\<not> (name record = s \<and> levelno record < ERROR \<and> \<not> duplicate self t record
          \<and> error_count self s = 1)
      \<and> no_reset_at_one s (state_of (filter_record h self t record)) cs)"

subsection \<open>Example hosts and records\<close>

text \<open>
  The formatted message of the records of the examples: a record without arguments formats
  to its template, and the record of \<^verbatim>\<open>log.error('%d', 'a')\<close> raises \<^verbatim>\<open>TypeError\<close>
  (\<^verbatim>\<open>%d\<close> wants a number). Other records with arguments do not occur in the examples.
\<close>

definition example_getMessage :: "log_record \<Rightarrow> py_exn + string" where
  "example_getMessage record =
     (if msg record = ''%d'' \<and> args record = Some [ArgStr ''a'']
      then Inl (Exn ''TypeError'') else Inr (msg record))"

text \<open>A host whose \<^verbatim>\<open>print_error\<close> always returns and one where it always raises.\<close>

definition quiet_host :: host where
  "quiet_host = \<lparr>getMessage = example_getMessage, print_error = (\<lambda>text. None)\<rparr>"

definition broken_host :: host where
  "broken_host =
     \<lparr>getMessage = example_getMessage, print_error = (\<lambda>text. Some (Exn ''NvimError''))\<rparr>"

definition mk_record :: "int \<Rightarrow> string \<Rightarrow> string \<Rightarrow> log_record" where
  "mk_record lvl src text =
     \<lparr>levelno = lvl, name = src, msg = text, args = Some [],
      exc_info = None, stack_info = None\<rparr>"

definition err_a :: log_record where "err_a = mk_record ERROR ''src'' ''a''"

definition err_b :: log_record where "err_b = mk_record ERROR ''src'' ''b''"

definition err_c :: log_record where "err_c = mk_record CRITICAL ''src'' ''c''"

definition info_d :: log_record where "info_d = mk_record INFO ''src'' ''d''"

text \<open>An error logged with \<^verbatim>\<open>exc_info=True, stack_info=True\<close> and no arguments.\<close>

definition err_trace :: log_record where
  "err_trace = \<lparr>levelno = ERROR, name = ''src'', msg = ''boom'', args = None,
                 exc_info = Some ''ValueError'', stack_info = Some ''Stack (most recent call last)''\<rparr>"

text \<open>The record of \<^verbatim>\<open>log.error('%d', 'a')\<close>: template and argument do not match.\<close>

definition err_mismatch :: log_record where
  "err_mismatch = \<lparr>levelno = ERROR, name = ''src'', msg = ''%d'', args = Some [ArgStr ''a''],
                    exc_info = None, stack_info = None\<rparr>"

text \<open>A record of a source never seen before, with every optional attribute absent.\<close>

definition bare_record :: log_record where
  "bare_record = \<lparr>levelno = CRITICAL, name = ''never.seen'', msg = [], args = None,
                   exc_info = None, stack_info = None\<rparr>"

text \<open>Errors of one source with a record below \<^verbatim>\<open>ERROR\<close> between them.\<close>

definition reset_calls :: "call list" where
  "reset_calls =
     [(quiet_host, 1, mk_record ERROR ''src'' ''a''),
      (quiet_host, 2, mk_record INFO ''src'' ''b''),
      (quiet_host, 3, mk_record ERROR ''src'' ''c''),
      (quiet_host, 4, mk_record INFO ''src'' ''d''),
      (quiet_host, 5, mk_record ERROR ''src'' ''e'')]"

text \<open>A run whose records below \<^verbatim>\<open>ERROR\<close> meet the counts \<open>0\<close> and \<open>2\<close> only.\<close>

definition harmless_calls :: "call list" where
  "harmless_calls =
     [(quiet_host, 1, info_d),
      (quiet_host, 2, err_a),
      (quiet_host, 3, err_b),
      (quiet_host, 4, info_d),
      (quiet_host, 5, err_c)]"

section \<open>The branches of the method\<close>

text \<open>
  The method has three ways through: the record is dropped as a duplicate, it is below
  \<^verbatim>\<open>ERROR\<close>, or it is an error. Each lemma gives the result of one of them; the
  projections that follow read off the outcome, the notifications and the fields of the
  object after a call.
\<close>

lemma dd_get_upd: "dd_get (m(k \<mapsto> v)) s = (if s = k then v else dd_get m s)"
  by (simp add: dd_get_def)

lemma call_print_error_Inl:
  "getMessage h r = Inl e \<Longrightarrow> call_print_error h r = (Some e, [])"
  by (simp add: call_print_error_def)

lemma call_print_error_Inr:
  "getMessage h r = Inr m \<Longrightarrow> call_print_error h r = (print_error h m, [(name r, m)])"
  by (simp add: call_print_error_def)

lemma notified_call_print_error:
  "notified s (snd (call_print_error h r)) \<le> (if name r = s then 1 else 0)"
  by (simp add: call_print_error_def notified_def split: sum.splits)

lemma filter_duplicate:
  "duplicate self t r \<Longrightarrow>
   filter_record h self t r = (Returned False, self\<lparr>last_message_time := t\<rparr>, [])"
  by (simp add: filter_record_def duplicate_def Let_def)

lemma filter_below_error:
  "\<not> duplicate self t r \<Longrightarrow> levelno r < ERROR \<Longrightarrow>
   filter_record h self t r =
     (Returned True,
      self\<lparr>last_message_time := t, last_message := Some (message_of r),
           counter := (counter self)(name r \<mapsto>
              (if error_count self (name r) < 2 then 0 else error_count self (name r)))\<rparr>,
      [])"
  by (auto simp add: filter_record_def duplicate_def Let_def error_count_def dd_touch_def dd_get_def)

lemma filter_error:
  "\<not> duplicate self t r \<Longrightarrow> ERROR \<le> levelno r \<Longrightarrow>
   filter_record h self t r =
     (let c = error_count self (name r) + 1;
          called = (if c \<le> 2 then call_print_error h r else (None, []))
      in (case fst called of Some e \<Rightarrow> Raised e | None \<Rightarrow> Returned True,
          self\<lparr>last_message_time := t, last_message := Some (message_of r),
               counter := (counter self)(name r \<mapsto>
                  (if fst called = None \<and> penalised r then c + 1 else c))\<rparr>,
          snd called))"
  by (auto simp add: filter_record_def duplicate_def Let_def error_count_def dd_get_def penalised_def split: option.splits)

lemma outcome_of_filter:
  "outcome_of (filter_record h self t r) =
     (if duplicate self t r then Returned False
      else if ERROR \<le> levelno r \<and> error_count self (name r) + 1 \<le> 2
      then (case fst (call_print_error h r) of None \<Rightarrow> Returned True | Some e \<Rightarrow> Raised e)
      else Returned True)"
proof (cases "duplicate self t r")
  case True
  then show ?thesis by (simp add: filter_duplicate outcome_of_def)
next
  case nd: False
  show ?thesis
  proof (cases "ERROR \<le> levelno r")
    case True
    with nd show ?thesis by (simp add: filter_error outcome_of_def Let_def)
  next
    case False
    with nd show ?thesis by (simp add: filter_below_error outcome_of_def)
  qed
qed

lemma sent_of_filter:
  "sent_of (filter_record h self t r) =
     (if \<not> duplicate self t r \<and> ERROR \<le> levelno r
         \<and> error_count self (name r) + 1 \<le> 2
      then snd (call_print_error h r) else [])"
proof (cases "duplicate self t r")
  case True
  then show ?thesis by (simp add: filter_duplicate sent_of_def)
next
  case nd: False
  show ?thesis
  proof (cases "ERROR \<le> levelno r")
    case True
    with nd show ?thesis by (simp add: filter_error sent_of_def Let_def)
  next
    case False
    with nd show ?thesis by (simp add: filter_below_error sent_of_def)
  qed
qed

lemma error_count_filter:
  "error_count (state_of (filter_record h self t r)) s =
     (if duplicate self t r \<or> s \<noteq> name r then error_count self s
      else if ERROR \<le> levelno r
      then (if error_count self s + 1 \<le> 2 \<and> fst (call_print_error h r) \<noteq> None
            then error_count self s + 1
            else if penalised r then error_count self s + 2
            else error_count self s + 1)
      else if error_count self s < 2 then 0 else error_count self s)"
proof (cases "duplicate self t r")
  case True
  then show ?thesis by (simp add: filter_duplicate state_of_def error_count_def)
next
  case nd: False
  show ?thesis
  proof (cases "ERROR \<le> levelno r")
    case True
    with nd show ?thesis
      by (cases "fst (call_print_error h r)")
         (auto simp add: filter_error state_of_def Let_def error_count_def dd_get_upd)
  next
    case False
    with nd show ?thesis
      by (simp add: filter_below_error state_of_def error_count_def dd_get_upd)
  qed
qed

lemma last_message_filter:
  "last_message (state_of (filter_record h self t r)) =
     (if duplicate self t r then last_message self else Some (message_of r))"
proof (cases "duplicate self t r")
  case True
  then show ?thesis by (simp add: filter_duplicate state_of_def)
next
  case nd: False
  show ?thesis
  proof (cases "ERROR \<le> levelno r")
    case True
    with nd show ?thesis by (simp add: filter_error state_of_def Let_def)
  next
    case False
    with nd show ?thesis by (simp add: filter_below_error state_of_def)
  qed
qed

lemma last_message_time_filter:
  "last_message_time (state_of (filter_record h self t r)) = t"
proof (cases "duplicate self t r")
  case True
  then show ?thesis by (simp add: filter_duplicate state_of_def)
next
  case nd: False
  show ?thesis
  proof (cases "ERROR \<le> levelno r")
    case True
    with nd show ?thesis by (simp add: filter_error state_of_def Let_def)
  next
    case False
    with nd show ?thesis by (simp add: filter_below_error state_of_def)
  qed
qed

lemma duplicate_after:
  "duplicate (state_of (filter_record h self t r)) t' r' =
     ((if duplicate self t r then last_message self else Some (message_of r))
        = Some (message_of r')
      \<and> t' - t < log_message_cooldown)"
  by (simp add: duplicate_def last_message_filter last_message_time_filter)

lemma error_count_init: "error_count init_filter s = 0"
  by (simp add: error_count_def init_filter_def dd_get_def)

lemma not_duplicate_init: "\<not> duplicate init_filter t r"
  by (simp add: duplicate_def init_filter_def)

lemma notified_append: "notified s (xs @ ys) = notified s xs + notified s ys"
  by (simp add: notified_def)

lemma notified_filter:
  "notified s (sent_of (filter_record h self t r)) \<le>
     (if \<not> duplicate self t r \<and> ERROR \<le> levelno r
         \<and> error_count self (name r) + 1 \<le> 2 \<and> name r = s
      then 1 else 0)"
  using notified_call_print_error [of s h r]
  by (auto simp add: sent_of_filter notified_def)

text \<open>Unfolding the definitions evaluates a call on concrete records.\<close>

lemmas eval_defs =
  filter_record_def call_print_error_def Let_def init_filter_def quiet_host_def broken_host_def
  example_getMessage_def mk_record_def log_message_cooldown_def dd_get_def dd_touch_def
  outcome_of_def state_of_def sent_of_def ERROR_def INFO_def CRITICAL_def WARNING_def DEBUG_def
  exc_info_truthy_def stack_info_truthy_def notified_def error_count_def duplicate_def
  penalised_def

lemmas rec_defs =
  err_a_def err_b_def err_c_def info_d_def err_trace_def err_mismatch_def bare_record_def

section \<open>Properties of a single call\<close>

subsection \<open>The verdict\<close>




text \<open>
  C10: the first record given to a freshly constructed filter is never suppressed, whatever
  its contents: the initial \<open>last_message\<close> is \<open>None\<close>, which equals no record tuple.
  Its verdict is true, unless it is an error and formatting its message or the call to
  \<open>print_error\<close> raises: then that exception leaves the method.
\<close>

theorem first_record_passes:
  "last_message init_filter \<noteq> Some (levelno r, name r, msg r, args r)
   \<and> outcome_of (filter_record h init_filter t r) \<noteq> Returned False
   \<and> (levelno r < ERROR \<longrightarrow> outcome_of (filter_record h init_filter t r) = Returned True)
   \<and> (getMessage h r = Inr m \<and> print_error h m = None
        \<longrightarrow> outcome_of (filter_record h init_filter t r) = Returned True)
   \<and> (ERROR \<le> levelno r \<and> getMessage h r = Inl e
        \<longrightarrow> outcome_of (filter_record h init_filter t r) = Raised e)
   \<and> (ERROR \<le> levelno r \<and> getMessage h r = Inr m \<and> print_error h m = Some e
        \<longrightarrow> outcome_of (filter_record h init_filter t r) = Raised e)"
proof -
  have nd: "\<not> duplicate init_filter t r" by (rule not_duplicate_init)
  have c: "error_count init_filter (name r) = 0" by (rule error_count_init)
  have "last_message init_filter \<noteq> Some (levelno r, name r, msg r, args r)"
    by (simp add: init_filter_def)
  then show ?thesis
    using nd c
    by (auto simp add: outcome_of_filter call_print_error_Inl call_print_error_Inr
          split: option.splits)
qed

theorem first_record_passes_witness:
  "levelno info_d < ERROR
   \<and> outcome_of (filter_record broken_host init_filter 0 info_d) = Returned True
   \<and> getMessage quiet_host err_c = Inr ''c'' \<and> print_error quiet_host ''c'' = None
   \<and> outcome_of (filter_record quiet_host init_filter 0 err_c) = Returned True
   \<and> ERROR \<le> levelno err_mismatch \<and> getMessage quiet_host err_mismatch = Inl (Exn ''TypeError'')
   \<and> outcome_of (filter_record quiet_host init_filter 0 err_mismatch) = Raised (Exn ''TypeError'')"
  using first_record_passes [where t = 0 and r = info_d and h = broken_host]
    first_record_passes [where t = 0 and r = err_c and h = quiet_host and m = "''c''"]
    first_record_passes
      [where t = 0 and r = err_mismatch and h = quiet_host and e = "Exn ''TypeError''"]
  by (simp add: rec_defs eval_defs)

text \<open>A first record that does not receive the verdict true.\<close>

theorem first_record_counterexample:
  "outcome_of (filter_record broken_host init_filter 0 err_c) = Raised (Exn ''NvimError'')
   \<and> outcome_of (filter_record broken_host init_filter 0 err_c) \<noteq> Returned True"
  by (simp add: rec_defs eval_defs)

subsection \<open>Suppressed records\<close>

text \<open>
  C6: every call sets \<open>last_message_time\<close> to the current time, and a call whose verdict
  is false changes nothing else: \<open>counter\<close> and \<open>last_message\<close> are as they were, and
  nothing is sent to \<open>print_error\<close>.
\<close>

theorem suppressed_frame:
  "last_message_time (state_of (filter_record h self t r)) = t
   \<and> (outcome_of (filter_record h self t r) = Returned False
        \<longrightarrow> counter (state_of (filter_record h self t r)) = counter self
          \<and> last_message (state_of (filter_record h self t r)) = last_message self
          \<and> state_of (filter_record h self t r) = self\<lparr>last_message_time := t\<rparr>
          \<and> sent_of (filter_record h self t r) = [])"
proof -
  have dup: "duplicate self t r"
    if "outcome_of (filter_record h self t r) = Returned False"
    using that by (auto simp add: outcome_of_filter split: if_splits option.splits)
  have "state_of (filter_record h self t r) = self\<lparr>last_message_time := t\<rparr>
        \<and> sent_of (filter_record h self t r) = []"
    if "outcome_of (filter_record h self t r) = Returned False"
    using dup [OF that] by (simp add: filter_duplicate state_of_def sent_of_def)
  then show ?thesis
    using last_message_time_filter [of h self t "r"] by auto
qed

theorem suppressed_frame_witness:
  "outcome_of (filter_record quiet_host (run_state init_filter [(quiet_host, 10, err_a)])
      (101 / 10) err_a) = Returned False
   \<and> error_count (run_state init_filter [(quiet_host, 10, err_a)]) ''src'' = 1
   \<and> error_count (state_of (filter_record quiet_host
         (run_state init_filter [(quiet_host, 10, err_a)]) (101 / 10) err_a)) ''src'' = 1
   \<and> last_message (state_of (filter_record quiet_host
         (run_state init_filter [(quiet_host, 10, err_a)]) (101 / 10) err_a))
       = Some (message_of err_a)
   \<and> last_message_time (state_of (filter_record quiet_host
         (run_state init_filter [(quiet_host, 10, err_a)]) (101 / 10) err_a)) = 101 / 10"
  using suppressed_frame
    [where h = quiet_host and self = "run_state init_filter [(quiet_host, 10, err_a)]"
       and t = "101 / 10" and r = err_a]
  by (simp add: rec_defs eval_defs)

subsection \<open>The counter\<close>

text \<open>
  C5: a record below \<^verbatim>\<open>ERROR\<close> that is not suppressed resets the count of its source to
  \<open>0\<close> when the count is strictly less than \<open>2\<close> and leaves it unchanged when it is
  \<open>2\<close> or more: a count of \<open>1\<close> becomes \<open>0\<close>, a count of \<open>2\<close> stays.
\<close>

theorem below_error_reset:
  "\<not> duplicate self t r \<Longrightarrow> levelno r < ERROR \<Longrightarrow>
   outcome_of (filter_record h self t r) = Returned True
   \<and> error_count (state_of (filter_record h self t r)) (name r) =
       (if error_count self (name r) < 2 then 0 else error_count self (name r))"
  by (simp add: error_count_filter outcome_of_filter)

theorem below_error_reset_witness:
  "\<not> duplicate (run_state init_filter [(quiet_host, 1, err_a)]) 2 info_d
   \<and> levelno info_d < ERROR
   \<and> error_count (run_state init_filter [(quiet_host, 1, err_a)]) ''src'' = 1
   \<and> error_count (state_of (filter_record quiet_host
         (run_state init_filter [(quiet_host, 1, err_a)]) 2 info_d)) ''src'' = 0
   \<and> error_count (run_state init_filter [(quiet_host, 1, err_a), (quiet_host, 2, err_b)]) ''src'' = 2
   \<and> error_count (state_of (filter_record quiet_host
         (run_state init_filter [(quiet_host, 1, err_a), (quiet_host, 2, err_b)]) 3 info_d)) ''src'' = 2"
  using below_error_reset
      [where self = "run_state init_filter [(quiet_host, 1, err_a)]" and t = 2
         and r = info_d and h = quiet_host]
    below_error_reset
      [where self = "run_state init_filter [(quiet_host, 1, err_a), (quiet_host, 2, err_b)]"
         and t = 3 and r = info_d and h = quiet_host]
  by (simp add: rec_defs eval_defs)

text \<open>
  C4: an error record with both exception and stack information that is not suppressed adds
  \<open>2\<close> to the count of its source in one call, provided the notification, when one is
  made, raises nothing; the test for the notification sees the count after the first
  increment only. From a count of \<open>0\<close> the record is notified once and leaves a count
  of \<open>2\<close>; a second, different error record of the source is then passed without a
  notification.
\<close>

theorem double_counted_error:
  assumes "ERROR \<le> levelno ra" and "penalised ra" and "\<not> duplicate self ta ra"
    and "error_count self (name ra) + 1 \<le> 2
         \<longrightarrow> getMessage ha ra = Inr m \<and> print_error ha m = None"
  shows "error_count (state_of (filter_record ha self ta ra)) (name ra)
           = error_count self (name ra) + 2
         \<and> sent_of (filter_record ha self ta ra)
             = (if error_count self (name ra) + 1 \<le> 2 then [(name ra, m)] else [])
         \<and> outcome_of (filter_record ha self ta ra) = Returned True
         \<and> (error_count self (name ra) = 0 \<and> name rb = name ra \<and> ERROR \<le> levelno rb
              \<and> (levelno rb, name rb, msg rb, args rb) \<noteq> (levelno ra, name ra, msg ra, args ra)
            \<longrightarrow> error_count (state_of (filter_record ha self ta ra)) (name ra) = 2
              \<and> sent_of (filter_record ha self ta ra) = [(name ra, m)]
              \<and> sent_of (filter_record hb (state_of (filter_record ha self ta ra)) tb rb) = []
              \<and> outcome_of (filter_record hb (state_of (filter_record ha self ta ra)) tb rb)
                  = Returned True)"
proof -
  let ?st = "state_of (filter_record ha self ta ra)"
  have quiet: "fst (call_print_error ha ra) = None \<and> snd (call_print_error ha ra) = [(name ra, m)]"
    if "error_count self (name ra) + 1 \<le> 2"
    using that assms(4) by (simp add: call_print_error_Inr)
  have c1: "error_count ?st (name ra) = error_count self (name ra) + 2"
    using assms(1-3) quiet by (auto simp add: error_count_filter)
  have s1: "sent_of (filter_record ha self ta ra)
             = (if error_count self (name ra) + 1 \<le> 2 then [(name ra, m)] else [])"
    using assms(1-3) quiet by (auto simp add: sent_of_filter)
  have o1: "outcome_of (filter_record ha self ta ra) = Returned True"
    using assms(1-3) quiet by (auto simp add: outcome_of_filter)
  have second: "sent_of (filter_record hb ?st tb rb) = []
      \<and> outcome_of (filter_record hb ?st tb rb) = Returned True"
    if "error_count self (name ra) = 0" "name rb = name ra"
       "(levelno rb, name rb, msg rb, args rb) \<noteq> (levelno ra, name ra, msg ra, args ra)"
  proof -
    have "\<not> duplicate ?st tb rb"
      using that assms(3) by (auto simp add: duplicate_after)
    moreover have "error_count ?st (name rb) = 2"
      using that c1 by simp
    ultimately show ?thesis
      by (simp add: sent_of_filter outcome_of_filter)
  qed
  from c1 s1 o1 second show ?thesis by auto
qed

theorem double_counted_error_witness:
  "ERROR \<le> levelno err_trace \<and> penalised err_trace \<and> \<not> duplicate init_filter 1 err_trace
   \<and> error_count init_filter (name err_trace) + 1 \<le> 2
   \<and> getMessage quiet_host err_trace = Inr ''boom'' \<and> print_error quiet_host ''boom'' = None
   \<and> error_count init_filter (name err_trace) = 0
   \<and> error_count (state_of (filter_record quiet_host init_filter 1 err_trace)) ''src'' = 2
   \<and> sent_of (filter_record quiet_host init_filter 1 err_trace) = [(''src'', ''boom'')]
   \<and> sent_of (filter_record broken_host
         (state_of (filter_record quiet_host init_filter 1 err_trace)) 1 err_a) = []
   \<and> outcome_of (filter_record broken_host
         (state_of (filter_record quiet_host init_filter 1 err_trace)) 1 err_a) = Returned True"
  using double_counted_error
    [where ra = err_trace and self = init_filter and ta = 1 and ha = quiet_host
       and m = "''boom''" and rb = err_a and hb = broken_host and tb = 1]
  by (simp add: rec_defs eval_defs)

text \<open>
  On a host whose \<open>print_error\<close> raises, the same record from a fresh source is sent once
  and leaves a count of \<open>1\<close>, and the second error record is sent as well.
\<close>

theorem double_counted_counterexample:
  "ERROR \<le> levelno err_trace \<and> penalised err_trace
   \<and> error_count init_filter ''src'' = 0
   \<and> sent_of (filter_record broken_host init_filter 1 err_trace) = [(''src'', ''boom'')]
   \<and> error_count (state_of (filter_record broken_host init_filter 1 err_trace)) ''src'' = 1
   \<and> sent_of (filter_record quiet_host
         (state_of (filter_record broken_host init_filter 1 err_trace)) 2 err_a)
       = [(''src'', ''a'')]"
  by (simp add: rec_defs eval_defs)

subsection \<open>The counts are never negative\<close>

lemma counter_nonneg_step:
  "counter_nonneg self \<Longrightarrow> counter_nonneg (state_of (filter_record h self t r))"
  unfolding counter_nonneg_def
proof
  fix s
  assume a: "\<forall>s. 0 \<le> error_count self s"
  then have "0 \<le> error_count self s" and "0 \<le> error_count self (name r)"
    by simp_all
  then show "0 \<le> error_count (state_of (filter_record h self t r)) s"
    by (auto simp add: error_count_filter)
qed

lemma counter_nonneg_run:
  "counter_nonneg self \<Longrightarrow> counter_nonneg (run_state self cs)"
proof (induction cs arbitrary: self)
  case Nil
  then show ?case by simp
next
  case (Cons c cs)
  obtain h t r where c: "c = (h, t, r)" by (cases c) auto
  from Cons.prems have "counter_nonneg (state_of (filter_record h self t r))"
    by (rule counter_nonneg_step)
  then show ?case using Cons.IH c by simp
qed

lemma counter_nonneg_init: "counter_nonneg init_filter"
  by (simp add: counter_nonneg_def error_count_def init_filter_def dd_get_def)

text \<open>
  C9: no count is negative in the initial object, a call keeps this true for every record,
  and so it is true after every sequence of calls.
\<close>

theorem counter_nonneg_invariant:
  "counter_nonneg init_filter
   \<and> (counter_nonneg self \<longrightarrow> counter_nonneg (state_of (filter_record h self t r)))
   \<and> counter_nonneg (run_state init_filter cs)"
  using counter_nonneg_init counter_nonneg_step counter_nonneg_run by blast

theorem counter_nonneg_invariant_witness:
  "counter_nonneg init_filter
   \<and> counter_nonneg (state_of (filter_record quiet_host init_filter 1 err_trace))
   \<and> counter_nonneg (run_state init_filter [(quiet_host, 1, err_a), (quiet_host, 2, info_d)])"
  using counter_nonneg_invariant
    [where self = init_filter and h = quiet_host and t = 1 and r = err_trace
       and cs = "[(quiet_host, 1, err_a), (quiet_host, 2, info_d)]"]
  by simp

subsection \<open>The failing sink\<close>

text \<open>
  C7: the method has no handler around the call to \<open>print_error\<close>. When that call raises,
  the exception leaves the method and no verdict is returned. The count of the source is the
  one after the increment that precedes the call (the penalty for exception and stack
  information is not added), and \<open>last_message\<close> and \<open>last_message_time\<close> are already
  updated.
\<close>

theorem sink_failure_propagates:
  "\<not> duplicate self t r \<Longrightarrow> ERROR \<le> levelno r \<Longrightarrow>
   error_count self (name r) + 1 \<le> 2 \<Longrightarrow>
   getMessage h r = Inr m \<Longrightarrow> print_error h m = Some e \<Longrightarrow>
   filter_record h self t r =
     (Raised e,
      self\<lparr>last_message_time := t, last_message := Some (message_of r),
           counter := (counter self)(name r \<mapsto> error_count self (name r) + 1)\<rparr>,
      [(name r, m)])"
  by (simp add: filter_error Let_def call_print_error_Inr)

theorem sink_failure_propagates_witness:
  "\<not> duplicate init_filter 1 err_trace \<and> ERROR \<le> levelno err_trace
   \<and> error_count init_filter (name err_trace) + 1 \<le> 2
   \<and> getMessage broken_host err_trace = Inr ''boom''
   \<and> print_error broken_host ''boom'' = Some (Exn ''NvimError'')
   \<and> outcome_of (filter_record broken_host init_filter 1 err_trace) = Raised (Exn ''NvimError'')
   \<and> error_count (state_of (filter_record broken_host init_filter 1 err_trace)) ''src'' = 1
   \<and> sent_of (filter_record broken_host init_filter 1 err_trace) = [(''src'', ''boom'')]"
  using sink_failure_propagates
    [where self = init_filter and t = 1 and r = err_trace and h = broken_host
       and m = "''boom''" and e = "Exn ''NvimError''"]
  by (simp add: rec_defs eval_defs)

text \<open>A call whose notification raises returns no verdict.\<close>

theorem sink_failure_counterexample:
  "getMessage broken_host err_a = Inr ''a''
   \<and> print_error broken_host ''a'' = Some (Exn ''NvimError'')
   \<and> outcome_of (filter_record broken_host init_filter 1 err_a) \<noteq> Returned True
   \<and> outcome_of (filter_record broken_host init_filter 1 err_a) = Raised (Exn ''NvimError'')"
  by (simp add: rec_defs eval_defs)




section \<open>Properties of sequences of calls\<close>

text \<open>
  C3: starting from a fresh filter, three error records of one source without the penalty,
  none a duplicate of the one before it, the first two with a message that formats, send
  exactly the first two to \<open>print_error\<close>; the third is passed with verdict true and
  sends nothing.
\<close>

theorem three_errors_two_notifications:
  assumes src: "name ra = s" "name rb = s" "name rc = s"
    and lvl: "ERROR \<le> levelno ra" "ERROR \<le> levelno rb" "ERROR \<le> levelno rc"
    and plain: "\<not> penalised ra" "\<not> penalised rb"
    and fmt: "getMessage ha ra = Inr ma" "getMessage hb rb = Inr mb"
    and fresh2: "(levelno rb, name rb, msg rb, args rb) \<noteq> (levelno ra, name ra, msg ra, args ra)
                 \<or> 1 / 2 \<le> tb - ta"
    and fresh3: "(levelno rc, name rc, msg rc, args rc) \<noteq> (levelno rb, name rb, msg rb, args rb)
                 \<or> 1 / 2 \<le> tc - tb"
  shows "run_sent init_filter [(ha, ta, ra), (hb, tb, rb), (hc, tc, rc)] = [(s, ma), (s, mb)]
         \<and> sent_of (filter_record hc (run_state init_filter [(ha, ta, ra), (hb, tb, rb)]) tc rc) = []
         \<and> outcome_of (filter_record hc (run_state init_filter [(ha, ta, ra), (hb, tb, rb)]) tc rc)
             = Returned True"
proof -
  let ?st1 = "state_of (filter_record ha init_filter ta ra)"
  let ?st2 = "state_of (filter_record hb ?st1 tb rb)"
  have nd1: "\<not> duplicate init_filter ta ra" by (rule not_duplicate_init)
  have c1: "error_count ?st1 s = 1"
    using src lvl plain nd1 by (simp add: error_count_filter error_count_init)
  have s1: "sent_of (filter_record ha init_filter ta ra) = [(s, ma)]"
    using src lvl nd1 fmt by (simp add: sent_of_filter error_count_init call_print_error_Inr)
  have nd2: "\<not> duplicate ?st1 tb rb"
    using fresh2 nd1 by (auto simp add: duplicate_after log_message_cooldown_def)
  have c2: "error_count ?st2 s = 2"
    using src lvl plain nd2 c1 by (simp add: error_count_filter)
  have s2: "sent_of (filter_record hb ?st1 tb rb) = [(s, mb)]"
    using src lvl nd2 c1 fmt by (simp add: sent_of_filter call_print_error_Inr)
  have nd3: "\<not> duplicate ?st2 tc rc"
    using fresh3 nd2 by (auto simp add: duplicate_after log_message_cooldown_def)
  have s3: "sent_of (filter_record hc ?st2 tc rc) = []"
    using src c2 by (simp add: sent_of_filter)
  have o3: "outcome_of (filter_record hc ?st2 tc rc) = Returned True"
    using src c2 nd3 by (simp add: outcome_of_filter)
  from s1 s2 s3 o3 show ?thesis by simp
qed

theorem three_errors_two_notifications_witness:
  "getMessage quiet_host err_a = Inr ''a'' \<and> getMessage broken_host err_b = Inr ''b''
   \<and> run_sent init_filter [(quiet_host, 1, err_a), (broken_host, 1, err_b), (quiet_host, 1, err_c)]
     = [(''src'', ''a''), (''src'', ''b'')]
   \<and> outcome_of (filter_record quiet_host
         (run_state init_filter [(quiet_host, 1, err_a), (broken_host, 1, err_b)]) 1 err_c)
       = Returned True"
  using three_errors_two_notifications
    [where s = "''src''" and ra = err_a and rb = err_b and rc = err_c
       and ta = 1 and tb = 1 and tc = 1
       and ha = quiet_host and hb = broken_host and hc = quiet_host
       and ma = "''a''" and mb = "''b''"]
  by (simp add: rec_defs eval_defs)

text \<open>
  Three error records of one source, none with exception or stack information, the first
  logged as \<^verbatim>\<open>log.error('%d', 'a')\<close>: formatting the first raises before any call to
  \<open>print_error\<close>, so the second record is the only one sent.
\<close>

theorem three_errors_counterexample:
  "run_sent init_filter [(quiet_host, 1, err_mismatch), (quiet_host, 2, err_b), (quiet_host, 3, err_c)]
     = [(''src'', ''b'')]"
  by (simp add: rec_defs eval_defs)

subsection \<open>The notification budget\<close>

text \<open>
  Each call uses up at least as much of what the source has left as it sends, as long as it
  does not reset a count of exactly \<open>1\<close>; and a source whose count is \<open>2\<close> or more
  stays there and sends nothing.
\<close>

lemma budget_step:
  assumes "0 \<le> error_count self s"
    and "\<not> (name r = s \<and> levelno r < ERROR \<and> \<not> duplicate self t r \<and> error_count self s = 1)"
  shows "notified s (sent_of (filter_record h self t r))
           + budget (state_of (filter_record h self t r)) s \<le> budget self s
         \<and> 0 \<le> error_count (state_of (filter_record h self t r)) s"
proof (cases "name r = s")
  case True
  show ?thesis
  proof (cases "ERROR \<le> levelno r")
    case err: True
    show ?thesis
    proof (cases "\<not> duplicate self t r \<and> error_count self s + 1 \<le> 2")
      case True
      then have "notified s (sent_of (filter_record h self t r)) \<le> 1"
        using notified_filter [of s h self t r] by (simp split: if_splits)
      moreover have "error_count self s + 1 \<le> error_count (state_of (filter_record h self t r)) s"
        using True err \<open>name r = s\<close> by (simp add: error_count_filter)
      ultimately show ?thesis
        using True assms(1) unfolding budget_def by arith
    next
      case False
      then have "notified s (sent_of (filter_record h self t r)) = 0"
        using notified_filter [of s h self t r] \<open>name r = s\<close> by (auto split: if_splits)
      moreover have "error_count self s \<le> error_count (state_of (filter_record h self t r)) s"
        using err \<open>name r = s\<close> by (simp add: error_count_filter)
      ultimately show ?thesis
        using assms(1) unfolding budget_def by arith
    qed
  next
    case False
    then have "notified s (sent_of (filter_record h self t r)) = 0"
      by (simp add: sent_of_filter notified_def)
    with False \<open>name r = s\<close> assms show ?thesis
      by (auto simp add: error_count_filter budget_def)
  qed
next
  case False
  then have "notified s (sent_of (filter_record h self t r)) = 0"
    using notified_filter [of s h self t r] by simp
  with False assms(1) show ?thesis
    by (simp add: error_count_filter budget_def)
qed

lemma budget_run:
  "0 \<le> error_count self s \<Longrightarrow> no_reset_at_one s self cs \<Longrightarrow>
   notified s (run_sent self cs) + budget (run_state self cs) s \<le> budget self s"
proof (induction cs arbitrary: self)
  case Nil
  then show ?case by (simp add: notified_def)
next
  case (Cons c cs)
  obtain h t r where c: "c = (h, t, r)" by (cases c) auto
  let ?st = "state_of (filter_record h self t r)"
  from Cons.prems(2) c
  have r: "\<not> (name r = s \<and> levelno r < ERROR \<and> \<not> duplicate self t r \<and> error_count self s = 1)"
    and rest: "no_reset_at_one s ?st cs"
    by simp_all
  have step: "notified s (sent_of (filter_record h self t r)) + budget ?st s \<le> budget self s"
    and pos: "0 \<le> error_count ?st s"
    using budget_step [OF Cons.prems(1) r] by simp_all
  have "notified s (run_sent ?st cs) + budget (run_state ?st cs) s \<le> budget ?st s"
    using Cons.IH [OF pos rest] .
  with step show ?case
    by (simp add: c notified_append)
qed

lemma exhausted_step:
  "2 \<le> error_count self s \<Longrightarrow>
   2 \<le> error_count (state_of (filter_record h self t r)) s
   \<and> notified s (sent_of (filter_record h self t r)) = 0"
  using notified_filter [of s h self t r]
  by (auto simp add: error_count_filter)

lemma exhausted_run:
  "2 \<le> error_count self s \<Longrightarrow>
   2 \<le> error_count (run_state self cs) s \<and> notified s (run_sent self cs) = 0"
proof (induction cs arbitrary: self)
  case Nil
  then show ?case by (simp add: notified_def)
next
  case (Cons c cs)
  obtain h t r where c: "c = (h, t, r)" by (cases c) auto
  from Cons.prems have step: "2 \<le> error_count (state_of (filter_record h self t r)) s"
    and quiet: "notified s (sent_of (filter_record h self t r)) = 0"
    using exhausted_step by blast+
  from Cons.IH [OF step] quiet show ?case
    by (simp add: c notified_append)
qed

text \<open>
  C2: for every source, a sequence of calls on a fresh filter sends at most two of its
  records to \<open>print_error\<close>, as long as no record of the source below \<^verbatim>\<open>ERROR\<close>
  that passes the duplicate test is met at a count of exactly \<open>1\<close> (such a record resets
  the count and gives the notification back). Once the count of a source is \<open>2\<close> or more
  it stays so for ever: no later record of the source is sent, and every later error record
  of the source that is not suppressed as a duplicate has verdict true.
\<close>

theorem notification_budget:
  "(no_reset_at_one s init_filter cs \<longrightarrow> notified s (run_sent init_filter cs) \<le> 2)
   \<and> (2 \<le> error_count self s \<longrightarrow>
        notified s (run_sent self ds) = 0
        \<and> 2 \<le> error_count (run_state self ds) s
        \<and> (name r = s \<and> ERROR \<le> levelno r \<and> \<not> duplicate (run_state self ds) t r
             \<longrightarrow> outcome_of (filter_record h (run_state self ds) t r) = Returned True
               \<and> sent_of (filter_record h (run_state self ds) t r) = []))"
proof -
  have "budget init_filter s = 2" and "0 \<le> error_count init_filter s"
    by (simp_all add: budget_def error_count_init)
  then have a: "no_reset_at_one s init_filter cs \<longrightarrow> notified s (run_sent init_filter cs) \<le> 2"
    using budget_run [of init_filter s cs] by auto
  have b: "2 \<le> error_count self s \<longrightarrow>
        notified s (run_sent self ds) = 0 \<and> 2 \<le> error_count (run_state self ds) s"
    using exhausted_run [of self s ds] by simp
  have c: "outcome_of (filter_record h (run_state self ds) t r) = Returned True
        \<and> sent_of (filter_record h (run_state self ds) t r) = []"
    if "2 \<le> error_count (run_state self ds) s" "name r = s"
       "\<not> duplicate (run_state self ds) t r"
    using that by (simp add: outcome_of_filter sent_of_filter)
  from a b c show ?thesis by blast
qed

theorem notification_budget_witness:
  "no_reset_at_one ''src'' init_filter harmless_calls
   \<and> notified ''src'' (run_sent init_filter harmless_calls) = 2
   \<and> 2 \<le> error_count (run_state init_filter [(quiet_host, 1, err_a), (quiet_host, 2, err_b)]) ''src''
   \<and> outcome_of (filter_record quiet_host
         (run_state (run_state init_filter [(quiet_host, 1, err_a), (quiet_host, 2, err_b)])
            [(quiet_host, 3, info_d)]) 4 err_c) = Returned True
   \<and> sent_of (filter_record quiet_host
         (run_state (run_state init_filter [(quiet_host, 1, err_a), (quiet_host, 2, err_b)])
            [(quiet_host, 3, info_d)]) 4 err_c) = []"
  using notification_budget
    [where s = "''src''" and cs = harmless_calls
       and self = "run_state init_filter [(quiet_host, 1, err_a), (quiet_host, 2, err_b)]"
       and ds = "[(quiet_host, 3, info_d)]" and r = err_c and t = 4 and h = quiet_host]
  by (simp add: harmless_calls_def rec_defs eval_defs)

text \<open>
  Over a whole run the number can exceed two: a record below \<^verbatim>\<open>ERROR\<close> after a single
  error resets the count, and the next error is shown again. And an error record of a
  silenced source that repeats the last message within the cooldown has verdict false.
\<close>

theorem lifetime_budget_counterexample:
  "\<not> notified ''src'' (run_sent init_filter reset_calls) \<le> 2
   \<and> 2 \<le> error_count
         (run_state init_filter [(quiet_host, 1, err_a), (quiet_host, 2, err_b), (quiet_host, 3, err_c)])
         ''src''
   \<and> outcome_of (filter_record quiet_host
         (run_state init_filter [(quiet_host, 1, err_a), (quiet_host, 2, err_b), (quiet_host, 3, err_c)])
         (31 / 10) err_c) \<noteq> Returned True"
  by (simp add: reset_calls_def rec_defs eval_defs)

end
